theory Spec2Isabelle
  imports Main "HOL-Library.Sublist" "HOL-Library.Word"
begin

section \<open>JavaScript strings and the two regular expressions of \<open>parse_tooltip\<close>\<close>

text \<open>
  A JavaScript string is a sequence of code units. The model uses \<open>string\<close>, each
  \<open>char\<close> standing for the code unit of the same number (U+0000 to U+00FF).

  \<open>is_space\<close> is the class \<^verbatim>\<open>\s\<close> on that range (tab, line feed, vertical tab, form
  feed, carriage return, space, no-break space); \<open>String.prototype.trim\<close> removes the same
  characters. \<open>is_line_terminator\<close> is what \<^verbatim>\<open>.\<close> refuses to match.
\<close>

definition is_space :: "char \<Rightarrow> bool" where
  "is_space c = (c \<in> set [CHR 0x09, CHR 0x0A, CHR 0x0B, CHR 0x0C, CHR 0x0D, CHR 0x20, CHR 0xA0])"

definition is_line_terminator :: "char \<Rightarrow> bool" where
  "is_line_terminator c = (c = CHR 0x0A \<or> c = CHR 0x0D)"

definition trim :: "string \<Rightarrow> string" where
  "trim s = rev (dropWhile is_space (rev (dropWhile is_space s)))"

text \<open>The first alternative of both expressions, \<^verbatim>\<open>\s-\s\<close>, tried at the head of a string.\<close>

fun dash_delim :: "string \<Rightarrow> bool" where
  "dash_delim (a # b # c # _) = (is_space a \<and> b = CHR ''-'' \<and> is_space c)"
| "dash_delim _ = False"

text \<open>
  \<^verbatim>\<open>.*\)\s*$\<close> at the head of a string: some closing parenthesis is reached over
  characters that are not line terminators, and only white space follows it up to the end
  of the input.
\<close>

fun closes :: "string \<Rightarrow> bool" where
  "closes [] = False"
| "closes (c # cs) =
     ((c = CHR '')'' \<and> list_all is_space cs) \<or> (\<not> is_line_terminator c \<and> closes cs))"

text \<open>The second alternative of the search expression, \<^verbatim>\<open>(\(.*\)\s*)$\<close>.\<close>

fun paren_group :: "string \<Rightarrow> bool" where
  "paren_group [] = False"
| "paren_group (c # cs) = (c = CHR ''('' \<and> closes cs)"

text \<open>\<^verbatim>\<open>/(\s-\s)|(\(.*\)\s*)$/\<close> matches at the head of the given suffix of the input.\<close>

definition matches_at :: "string \<Rightarrow> bool" where
  "matches_at s = (dash_delim s \<or> paren_group s)"

text \<open>
  \<open>String.prototype.search\<close>: the index of the leftmost position where the expression
  matches; \<open>None\<close> stands for the result \<open>-1\<close>.
\<close>

fun search_from :: "nat \<Rightarrow> string \<Rightarrow> nat option" where
  "search_from i [] = None"
| "search_from i (c # cs) =
     (if matches_at (c # cs) then Some i else search_from (Suc i) cs)"

definition search :: "string \<Rightarrow> nat option" where
  "search s = search_from 0 s"

text \<open>
  \<^verbatim>\<open>.replace(/\s-\s|^\(|\)$/g, '')\<close>: the input is scanned from the left; a match is
  dropped and the scan goes on behind it. The flag says whether the scan is at index 0
  (where \<^verbatim>\<open>^\<close> matches); \<^verbatim>\<open>$\<close> matches at the end of the input only.
\<close>

fun replace_from :: "bool \<Rightarrow> string \<Rightarrow> string" where
  "replace_from at_start [] = []"
| "replace_from at_start (c # cs) =
     (if dash_delim (c # cs) then replace_from False (tl (tl cs))
      else if at_start \<and> c = CHR ''('' then replace_from False cs
      else if c = CHR '')'' \<and> cs = [] then []
      else c # replace_from False cs)"

definition strip_markers :: "string \<Rightarrow> string" where
  "strip_markers s = replace_from True s"

section \<open>The tooltip parser\<close>

text \<open>
  \<open>button_name_map\<close> is an object literal, so \<open>button_name_map[tooltip]\<close> finds its own
  property first and then the properties every object inherits from \<open>Object.prototype\<close>.
  A value read from the table is a string; an inherited one is a built-in function or
  object, kept here under its property name.
\<close>

datatype jsvalue = Str string | Builtin string

definition button_name_map :: "(string \<times> string) list" where
  "button_name_map = [(''Exclude message from prompts'', ''Exclude from prompts'')]"

definition object_prototype_keys :: "string list" where
  "object_prototype_keys =
     [''constructor'', ''hasOwnProperty'', ''isPrototypeOf'', ''propertyIsEnumerable'',
      ''toLocaleString'', ''toString'', ''valueOf'', ''__proto__'',
      ''__defineGetter__'', ''__defineSetter__'', ''__lookupGetter__'', ''__lookupSetter__'']"

definition get_property :: "(string \<times> string) list \<Rightarrow> string \<Rightarrow> jsvalue option" where
  "get_property obj k =
     (case map_of obj k of
        Some v \<Rightarrow> Some (Str v)
      | None \<Rightarrow> if k \<in> set object_prototype_keys then Some (Builtin k) else None)"

text \<open>
  What a template literal prints for a value: a string as it is, an inherited function
  by its source text as V8 gives it, the inherited object \<open>__proto__\<close> as an object.
\<close>

fun to_string :: "jsvalue \<Rightarrow> string" where
  "to_string (Str s) = s"
| "to_string (Builtin k) =
     (if k = ''__proto__'' then ''[object Object]''
      else ''function '' @ (if k = ''constructor'' then ''Object'' else k)
             @ ''() { [native code] }'')"

fun truthy :: "jsvalue option \<Rightarrow> bool" where
  "truthy None = False"
| "truthy (Some (Str s)) = (s \<noteq> [])"
| "truthy (Some (Builtin k)) = True"

record parsed =
  ptext :: jsvalue
  ptitle :: string

text \<open>
  The \<open>else\<close> branch of \<open>parse_tooltip\<close>: split at the index \<open>search\<close> returns, or keep
  the whole tooltip as the text.
\<close>

definition split_tooltip :: "string \<Rightarrow> parsed" where
  "split_tooltip t =
     (case search t of
        Some idx \<Rightarrow> \<lparr>ptext = Str (trim (take idx t)), ptitle = strip_markers (drop idx t)\<rparr>
      | None \<Rightarrow> \<lparr>ptext = Str t, ptitle = []\<rparr>)"

text \<open>
  The argument is \<open>None\<close> when the caller found no tooltip (\<open>undefined\<close>); \<open>!tooltip\<close>
  holds for \<open>undefined\<close> and for the empty string.
\<close>

definition parse_tooltip :: "string option \<Rightarrow> parsed" where
  "parse_tooltip tooltip =
     (case tooltip of
        None \<Rightarrow> \<lparr>ptext = Str [], ptitle = []\<rparr>
      | Some t \<Rightarrow>
          if t = [] then \<lparr>ptext = Str [], ptitle = []\<rparr>
          else
            (case get_property button_name_map t of
               Some mapped \<Rightarrow>
                 if truthy (Some mapped) then \<lparr>ptext = mapped, ptitle = t\<rparr>
                 else split_tooltip t
             | None \<Rightarrow> split_tooltip t))"

section \<open>The page: elements, handlers, the menu\<close>

type_synonym node = nat

record element =
  classList :: "string list"
  title_prop :: string
  sttt_title :: "string option"
  display :: string
  svg :: "node list"

text \<open>
  A message \<open>div\<close> as the selectors of the source see it: its \<open>mesid\<close> attribute, the
  descendants of its \<open>.mes_buttons\<close> and of its \<open>.mes_edit_buttons\<close> in document order, and
  whether its block holds a \<open>textarea.edit_textarea\<close>.
\<close>

record message =
  mesid :: "string option"
  mes_buttons :: "node list"
  mes_edit_buttons :: "node list"
  edit_textarea :: bool

text \<open>
  \<open>Number(id)\<close>: a plain decimal numeral that a double holds exactly is that number,
  \<open>undefined\<close> is \<open>NaN\<close>; the other string forms are kept unevaluated.
\<close>

datatype jsnum = Num nat | NaN | NumberOf string

definition is_digit :: "char \<Rightarrow> bool" where
  "is_digit c = (48 \<le> (of_char c :: nat) \<and> (of_char c :: nat) \<le> 57)"

definition decimal :: "string \<Rightarrow> nat" where
  "decimal s = foldl (\<lambda>n c. 10 * n + (of_char c - 48)) 0 s"

definition Number :: "string option \<Rightarrow> jsnum" where
  "Number v =
     (case v of
        None \<Rightarrow> NaN
      | Some s \<Rightarrow>
          if s \<noteq> [] \<and> list_all is_digit s \<and> decimal s \<le> 9007199254740992 then Num (decimal s)
          else NumberOf s)"

text \<open>
  The one handler the source binds with \<open>.on('click', ...)\<close>, and what the page does that
  the host can observe: \<open>Clicked n\<close> and \<open>PointerUp n\<close> are the events that leave node \<open>n\<close>
  for the handlers the host delegates higher up, after the handlers bound on \<open>n\<close> itself
  have run in the order of their binding.
\<close>

datatype handler = EditContext jsnum

datatype effect = SetEditedMessageId jsnum | Clicked node | PointerUp node | PreventDefault

datatype icon = SvgClone "node list" | FaIcon "string list"

text \<open>
  A menu item is one top-level element of the fragment that \<open>$(html)\<close> parses out of a
  template: the template it comes from, its place among the top-level elements of that
  fragment, the icon put in front of it and the button its click handler replays on.
\<close>

record menu_item =
  source :: node
  html :: string
  part :: nat
  item_icon :: icon

datatype css_length = Unset | Px jsnum

text \<open>
  Coordinates and sizes are whole numbers of pixels below \<open>2 ^ 32\<close>; their sums and
  differences are integers that a double holds exactly, so the additions, subtractions and
  comparisons of the source are those of \<open>int\<close> on them.
\<close>

type_synonym pixels = "32 word"

record menu =
  classes :: "string list"
  max_width :: css_length
  items :: "menu_item list"
  shown :: bool
  css_left :: "int option"
  css_top :: "int option"

text \<open>
  The page. Two fields stand for the browser: \<open>top_level_elements\<close> tells how many
  top-level elements its parser makes of a string of markup, and \<open>bounding_rect\<close> gives
  the width and height of the box the menu has when it is displayed.
\<close>

record page =
  menu_mode :: "string option"
  max_width_horizontal :: "jsnum option"
  double_tap :: bool
  elems :: "node \<Rightarrow> element"
  click_handlers :: "node \<Rightarrow> handler list"
  menu :: "menu option"
  top_level_elements :: "string \<Rightarrow> nat"
  bounding_rect :: "menu \<Rightarrow> pixels \<times> pixels"
  screen_width :: pixels
  screen_height :: pixels
  last_tap :: int
  trace :: "effect list"

datatype error = TypeError

text \<open>An exception leaves the page as it was when it was thrown.\<close>

type_synonym outcome = "error \<times> page + page"

fun page_after :: "outcome \<Rightarrow> page" where
  "page_after (Inl (e, st)) = st"
| "page_after (Inr st) = st"

subsection \<open>Settings\<close>

text \<open>\<open>get_settings(key)\<close>: the stored value, or the one of \<open>default_settings\<close>.\<close>

definition get_menu_mode :: "page \<Rightarrow> string" where
  "get_menu_mode st = (case menu_mode st of None \<Rightarrow> ''vertical'' | Some m \<Rightarrow> m)"

definition get_max_width_horizontal :: "page \<Rightarrow> jsnum" where
  "get_max_width_horizontal st =
     (case max_width_horizontal st of None \<Rightarrow> Num 220 | Some w \<Rightarrow> w)"

text \<open>
  \<open>set_settings('menu_mode', value)\<close>, which the change listener of the settings panel
  calls with the value of its control.
\<close>

definition set_settings_menu_mode :: "string \<Rightarrow> page \<Rightarrow> page" where
  "set_settings_menu_mode v st = st\<lparr>menu_mode := Some v\<rparr>"

definition horizontal_item_class :: string where
  "horizontal_item_class = ''right_click_message_menu_item''"

definition vertical_menu_class :: string where
  "vertical_menu_class = ''right_click_message_menu_vertical''"

definition horizontal_menu_class :: string where
  "horizontal_menu_class = ''right_click_message_menu_horizontal''"

subsection \<open>Arrays\<close>

text \<open>
  What the array of \<open>get_buttons\<close> and the variable \<open>$edit\<close> hold: DOM elements, a jQuery
  object (a wrapper around a selection, equal to no element; the array never holds one),
  or \<open>undefined\<close>.
\<close>

datatype jsref = Elem node | JQuery "node list" | Undefined

text \<open>\<open>Array.prototype.indexOf\<close>: the first index of a strictly equal entry, or \<open>-1\<close>.\<close>

fun indexOf :: "jsref list \<Rightarrow> jsref \<Rightarrow> int" where
  "indexOf [] x = -1"
| "indexOf (y # ys) x =
     (if y = x then 0 else (let i = indexOf ys x in if i < 0 then -1 else i + 1))"

text \<open>
  \<open>Array.prototype.splice(start, deleteCount, ...new_items)\<close>: a negative \<open>start\<close> counts
  from the end of the array.
\<close>

definition array_splice :: "int \<Rightarrow> nat \<Rightarrow> 'a list \<Rightarrow> 'a list \<Rightarrow> 'a list" where
  "array_splice start delete_count new_items array =
     (let n = int (length array);
          s = nat (if start < 0 then max (n + start) 0 else min start n)
      in take s array @ new_items @ drop (s + delete_count) array)"

definition has_class :: "page \<Rightarrow> string \<Rightarrow> node \<Rightarrow> bool" where
  "has_class st c n = (c \<in> set (classList (elems st n)))"

text \<open>\<open>$nodes.on('click', h)\<close>: every node of the selection gets the handler once, behind
  the handlers it has.\<close>

definition on_click :: "node list \<Rightarrow> handler \<Rightarrow> page \<Rightarrow> page" where
  "on_click ns h st =
     st\<lparr>click_handlers :=
          (\<lambda>n. if n \<in> set ns then click_handlers st n @ [h] else click_handlers st n)\<rparr>"

subsection \<open>The button collector\<close>

definition message_buttons :: "message \<Rightarrow> page \<Rightarrow> node list" where
  "message_buttons msg st =
     filter (\<lambda>n. has_class st ''mes_button'' n \<and> \<not> has_class st ''extraMesButtonsHint'' n)
       (mes_buttons msg)"

definition edit_controls :: "message \<Rightarrow> page \<Rightarrow> node list" where
  "edit_controls msg st = filter (has_class st ''mes_edit'') (message_buttons msg st)"

definition delete_controls :: "message \<Rightarrow> page \<Rightarrow> node list" where
  "delete_controls msg st = filter (has_class st ''mes_edit_delete'') (mes_edit_buttons msg)"

text \<open>\<open>$sel[0]\<close>: the first element of a selection, \<open>undefined\<close> when it is empty.\<close>

fun first_of :: "node list \<Rightarrow> jsref" where
  "first_of [] = Undefined"
| "first_of (n # ns) = Elem n"

definition get_buttons :: "message \<Rightarrow> page \<Rightarrow> jsref list \<times> page" where
  "get_buttons msg st =
     (let buttons = message_buttons msg st;
          array = map Elem buttons;
          edit = edit_controls msg st;
          delete = delete_controls msg st;
          id = mesid msg;
          st' = on_click delete (EditContext (Number id)) st
      in if length edit > 0 then
           (let at_index = indexOf array (JQuery edit);
                array = array_splice at_index 1 [] array;
                array = array_splice 0 0 [first_of edit] array;
                array = array @ [first_of delete]
            in (array, st'))
         else (array, st'))"

definition get_edit_buttons :: "message \<Rightarrow> page \<Rightarrow> jsref list" where
  "get_edit_buttons msg st = map Elem (filter (has_class st ''menu_button'') (mes_edit_buttons msg))"

subsection \<open>The menu builder\<close>

text \<open>
  \<open>$button.prop('title') || $button.attr('data-sttt--title')\<close>: the property is a string,
  empty when the element has no title; the attribute may be absent.
\<close>

definition tooltip_of :: "element \<Rightarrow> string option" where
  "tooltip_of e = (if title_prop e \<noteq> [] then Some (title_prop e) else sttt_title e)"

definition icon_of :: "element \<Rightarrow> icon" where
  "icon_of e =
     (if length (svg e) > 0 then SvgClone (svg e)
      else FaIcon (filter (prefix ''fa-'') (classList e)))"

text \<open>
  The two template literals of the loop, with the values pasted in as they are. In a
  template, \<open>undefined\<close> prints as the word.
\<close>

definition item_template :: "string \<Rightarrow> string option \<Rightarrow> string" where
  \<open>item_template mode tooltip =
     (if mode = ''vertical'' then
        (let p = parse_tooltip tooltip
         in ''<div class="flex-container list-group-item '' @ horizontal_item_class
              @ ''"><span title="'' @ ptitle p @ ''">'' @ to_string (ptext p)
              @ ''</span></div>'')
      else
        ''<div class="mes_button" title="''
          @ (case tooltip of None \<Rightarrow> ''undefined'' | Some t \<Rightarrow> t) @ ''"></div>'')\<close>

text \<open>
  \<open>$(html)\<close> is the selection of the top-level elements the browser parses out of the
  template; \<open>prepend\<close> puts the icon into each of them, \<open>on('click', ...)\<close> binds the
  handler that replays on the button on each of them, and \<open>$menu.append\<close> appends each
  of them.
\<close>

definition make_items :: "(string \<Rightarrow> nat) \<Rightarrow> string \<Rightarrow> node \<Rightarrow> element \<Rightarrow> menu_item list" where
  "make_items parser mode b e =
     (let template = item_template mode (tooltip_of e)
      in map (\<lambda>k. \<lparr>source = b, html = template, part = k, item_icon = icon_of e\<rparr>)
           [0 ..< parser template])"

text \<open>
  The loop \<open>for (let button of $buttons)\<close>, with the items appended so far. The
  display is read through \<open>$(button)\<close> (of the first element, for a selection; of none,
  for \<open>undefined\<close>); reading \<open>classList\<close> of an entry that is no element throws.
\<close>

fun add_items :: "(string \<Rightarrow> nat) \<Rightarrow> string \<Rightarrow> (node \<Rightarrow> element) \<Rightarrow> jsref list
    \<Rightarrow> menu_item list \<Rightarrow> error \<times> menu_item list + menu_item list" where
  "add_items parser mode els [] acc = Inr acc"
| "add_items parser mode els (Elem b # bs) acc =
     (if display (els b) = ''none'' then add_items parser mode els bs acc
      else add_items parser mode els bs (acc @ make_items parser mode b (els b)))"
| "add_items parser mode els (JQuery sel # bs) acc =
     (case sel of
        n # _ \<Rightarrow> if display (els n) = ''none'' then add_items parser mode els bs acc
                 else Inl (TypeError, acc)
      | [] \<Rightarrow> Inl (TypeError, acc))"
| "add_items parser mode els (Undefined # bs) acc = Inl (TypeError, acc)"

definition new_menu :: menu where
  "new_menu =
     \<lparr>classes = [''options-content'', ''popup''], max_width = Unset, items = [], shown = False,
      css_left = None, css_top = None\<rparr>"

definition removeClass :: "string list \<Rightarrow> menu \<Rightarrow> menu" where
  "removeClass cs m = m\<lparr>classes := filter (\<lambda>c. c \<notin> set cs) (classes m)\<rparr>"

definition addClass :: "string \<Rightarrow> menu \<Rightarrow> menu" where
  "addClass c m = (if c \<in> set (classes m) then m else m\<lparr>classes := classes m @ [c]\<rparr>)"

text \<open>The buttons \<open>update_menu\<close> works on, and the page its collector leaves.\<close>

definition collect :: "message \<Rightarrow> bool \<Rightarrow> page \<Rightarrow> jsref list \<times> page" where
  "collect msg edit st = (if edit then (get_edit_buttons msg st, st) else get_buttons msg st)"

definition update_menu :: "message \<Rightarrow> bool \<Rightarrow> page \<Rightarrow> outcome" where
  "update_menu msg edit st =
     (let m = (case menu st of None \<Rightarrow> new_menu | Some m \<Rightarrow> m\<lparr>items := []\<rparr>);
          m = removeClass [vertical_menu_class, horizontal_menu_class] m;
          mode = get_menu_mode st
      in if mode = ''disabled'' then Inr (st\<lparr>menu := Some m\<rparr>)
         else
           (let m = (if mode = ''horizontal''
                     then addClass horizontal_menu_class
                            (m\<lparr>max_width := Px (get_max_width_horizontal st)\<rparr>)
                     else addClass vertical_menu_class (m\<lparr>max_width := Unset\<rparr>));
                (buttons, st') = collect msg edit st
            in case add_items (top_level_elements st') mode (elems st') buttons (items m) of
                 Inl (e, its) \<Rightarrow> Inl (e, st'\<lparr>menu := Some (m\<lparr>items := its\<rparr>)\<rparr>)
               | Inr its \<Rightarrow> Inr (st'\<lparr>menu := Some (m\<lparr>items := its\<rparr>)\<rparr>)))"

subsection \<open>The positioner\<close>

text \<open>
  \<open>getBoundingClientRect\<close>: an element that is not displayed has no box, and the browser
  reports width and height 0 for it.
\<close>

definition getBoundingClientRect :: "page \<Rightarrow> menu \<Rightarrow> pixels \<times> pixels" where
  "getBoundingClientRect st m = (if shown m then bounding_rect st m else (0, 0))"

text \<open>
  A coordinate is \<open>None\<close> when the event has none (\<open>undefined\<close>): the sum is then \<open>NaN\<close>,
  the comparison fails, and the value \<open>undefinedpx\<close> that the source writes is no length,
  so the property keeps what it had.
\<close>

definition set_menu_position :: "pixels option \<Rightarrow> pixels option \<Rightarrow> page \<Rightarrow> outcome" where
  "set_menu_position mouse_x mouse_y st =
     (case menu st of
        None \<Rightarrow> Inl (TypeError, st)
      | Some m \<Rightarrow>
          (let (width, height) = getBoundingClientRect st m;
               x_pos = (case mouse_x of
                          None \<Rightarrow> css_left m
                        | Some x \<Rightarrow>
                            Some (if uint x + uint width > uint (screen_width st)
                                  then uint x - uint width else uint x));
               y_pos = (case mouse_y of
                          None \<Rightarrow> css_top m
                        | Some y \<Rightarrow>
                            Some (if uint y + uint height > uint (screen_height st)
                                  then uint y - uint height else uint y))
           in Inr (st\<lparr>menu := Some (m\<lparr>css_left := x_pos, css_top := y_pos\<rparr>)\<rparr>)))"

subsection \<open>The interaction controller\<close>

text \<open>
  The event a listener gets: the message of the text that was hit, and the page
  coordinates, which a mouse event has and a touch event has not.
\<close>

record gesture =
  target :: message
  pageX :: "pixels option"
  pageY :: "pixels option"

definition show_menu :: "page \<Rightarrow> outcome" where
  "show_menu st =
     (case menu st of
        None \<Rightarrow> Inl (TypeError, st)
      | Some m \<Rightarrow> Inr (st\<lparr>menu := Some (m\<lparr>shown := True\<rparr>)\<rparr>))"

definition handle_interaction :: "gesture \<Rightarrow> page \<Rightarrow> outcome" where
  "handle_interaction e st =
     (if get_menu_mode st = ''disabled'' then Inr st
      else
        (let st = st\<lparr>trace := trace st @ [PreventDefault]\<rparr>;
             message = target e
         in case update_menu message (edit_textarea message) st of
              Inl err \<Rightarrow> Inl err
            | Inr st \<Rightarrow>
                (case set_menu_position (pageX e) (pageY e) st of
                   Inl err \<Rightarrow> Inl err
                 | Inr st \<Rightarrow> show_menu st)))"

text \<open>
  The three listeners \<open>init_menu\<close> binds on the document. An exception thrown inside a
  listener ends it; the page keeps what was done before. The event of \<open>touchend\<close> is a
  touch event.
\<close>

definition on_contextmenu :: "gesture \<Rightarrow> page \<Rightarrow> outcome" where
  "on_contextmenu e st = (if \<not> double_tap st then handle_interaction e st else Inr st)"

definition on_touchend :: "int \<Rightarrow> message \<Rightarrow> page \<Rightarrow> outcome" where
  "on_touchend current_time msg st =
     (let e = \<lparr>target = msg, pageX = None, pageY = None\<rparr>;
          tap_length = current_time - last_tap st;
          r = (if tap_length < 300 \<and> tap_length > 0
               then (if double_tap st then handle_interaction e st else Inr st)
               else Inr st)
      in case r of
           Inl err \<Rightarrow> Inl err
         | Inr st \<Rightarrow> Inr (st\<lparr>last_tap := current_time\<rparr>))"

definition on_document_click :: "page \<Rightarrow> page" where
  "on_document_click st =
     (if get_menu_mode st = ''disabled'' then st
      else (case menu st of
              None \<Rightarrow> st
            | Some m \<Rightarrow> if \<not> shown m then st else st\<lparr>menu := Some (m\<lparr>shown := False\<rparr>)\<rparr>))"

text \<open>
  What can happen to the page: a right-click and the end of a touch on the text of a
  message, a click anywhere, and a change of the mode in the settings panel.
\<close>

datatype event =
  ContextMenu gesture | TouchEnd int message | DocumentClick | ChangeMenuMode string

fun step :: "page \<Rightarrow> event \<Rightarrow> page" where
  "step st (ContextMenu e) = page_after (on_contextmenu e st)"
| "step st (TouchEnd now msg) = page_after (on_touchend now msg st)"
| "step st DocumentClick = on_document_click st"
| "step st (ChangeMenuMode v) = set_settings_menu_mode v st"

definition run :: "event list \<Rightarrow> page \<Rightarrow> page" where
  "run evs st = foldl step st evs"

definition menu_visible :: "page \<Rightarrow> bool" where
  "menu_visible st = (case menu st of None \<Rightarrow> False | Some m \<Rightarrow> shown m)"

subsection \<open>Clicks on a button\<close>

fun run_handler :: "handler \<Rightarrow> effect" where
  "run_handler (EditContext n) = SetEditedMessageId n"

text \<open>
  \<open>$button.click()\<close>: the handlers bound on the node run in the order of their binding,
  then the event goes up to the document, to the handlers of the host (\<open>Clicked n\<close>) and
  to the click listener of this program.
\<close>

definition click_effects :: "page \<Rightarrow> node \<Rightarrow> effect list" where
  "click_effects st n = map run_handler (click_handlers st n) @ [Clicked n]"

definition click :: "node \<Rightarrow> page \<Rightarrow> page" where
  "click n st = on_document_click (st\<lparr>trace := trace st @ click_effects st n\<rparr>)"

definition pointerup :: "node \<Rightarrow> page \<Rightarrow> page" where
  "pointerup n st = st\<lparr>trace := trace st @ [PointerUp n]\<rparr>"

text \<open>
  The click handler of a menu item replays the click and a \<open>pointerup\<close> on its button;
  the click on the item itself then reaches the document.
\<close>

definition click_item :: "menu_item \<Rightarrow> page \<Rightarrow> page" where
  "click_item it st = on_document_click (pointerup (source it) (click (source it) st))"

text \<open>\<open>n\<close> collections on one message, one after the other.\<close>

fun collect_times :: "nat \<Rightarrow> message \<Rightarrow> page \<Rightarrow> page" where
  "collect_times 0 msg st = st"
| "collect_times (Suc n) msg st = snd (get_buttons msg (collect_times n msg st))"

section \<open>Notions used to state the properties\<close>

text \<open>Some suffix of the string starts with the delimiter \<^verbatim>\<open>\s-\s\<close>.\<close>

fun has_dash :: "string \<Rightarrow> bool" where
  "has_dash [] = False"
| "has_dash (c # cs) = (dash_delim (c # cs) \<or> has_dash cs)"


text \<open>
  The split index as the specification words it, "the last occurrence of either a
  delimiter or a trailing parenthesized group": the greatest index where the search
  expression matches. It is compared with \<open>search\<close>, which is what the source calls.
\<close>

fun spec_last_match_from :: "nat \<Rightarrow> string \<Rightarrow> nat option" where
  "spec_last_match_from i [] = None"
| "spec_last_match_from i (c # cs) =
     (case spec_last_match_from (Suc i) cs of
        Some j \<Rightarrow> Some j
      | None \<Rightarrow> if matches_at (c # cs) then Some i else None)"

definition spec_last_match :: "string \<Rightarrow> nat option" where
  "spec_last_match s = spec_last_match_from 0 s"

text \<open>
  The elements among the collected entries whose computed display on the given page is
  not \<open>none\<close>, in the order of the collection.
\<close>

definition visible_sources :: "page \<Rightarrow> jsref list \<Rightarrow> node list" where
  "visible_sources st bs = [n. Elem n \<leftarrow> bs, display (elems st n) \<noteq> ''none'']"

text \<open>The buttons the items of the menu stand for, item by item.\<close>

definition menu_sources :: "page \<Rightarrow> node list" where
  "menu_sources st = (case menu st of None \<Rightarrow> [] | Some m \<Rightarrow> map source (items m))"

text \<open>An event that leaves the mode at \<open>disabled\<close>.\<close>

fun keeps_disabled :: "event \<Rightarrow> bool" where
  "keeps_disabled (ChangeMenuMode v) = (v = ''disabled'')"
| "keeps_disabled _ = True"

text \<open>Where the positioner left the menu.\<close>

definition menu_left :: "page \<Rightarrow> int option" where
  "menu_left st = (case menu st of None \<Rightarrow> None | Some m \<Rightarrow> css_left m)"

definition menu_top :: "page \<Rightarrow> int option" where
  "menu_top st = (case menu st of None \<Rightarrow> None | Some m \<Rightarrow> css_top m)"

section \<open>A sample page\<close>

text \<open>
  The scenario of the specification: a message with five buttons, the one tagged
  \<open>mes_edit\<close> at index 2, and a delete control in its edit toolbar. Button 1 is hidden.
\<close>

definition sample_button :: "string list \<Rightarrow> string \<Rightarrow> string \<Rightarrow> element" where
  "sample_button cs t d =
     \<lparr>classList = cs, title_prop = t, sttt_title = None, display = d, svg = []\<rparr>"

definition sample_elems :: "node \<Rightarrow> element" where
  "sample_elems n =
     (if n = 0 then sample_button [''mes_button'', ''fa-solid'', ''fa-copy''] ''Copy'' ''flex''
      else if n = 1 then sample_button [''mes_button'', ''fa-solid'', ''fa-language''] ''Translate (Google)'' ''none''
      else if n = 2 then sample_button [''mes_button'', ''mes_edit'', ''fa-solid'', ''fa-pencil''] ''Edit'' ''flex''
      else if n = 3 then sample_button [''mes_button'', ''fa-solid'', ''fa-flag''] ''Exclude message from prompts'' ''flex''
      else if n = 4 then sample_button [''mes_button'', ''fa-solid'', ''fa-paintbrush''] ''Generate Image'' ''flex''
      else sample_button [''menu_button'', ''mes_edit_delete'', ''fa-solid'', ''fa-trash-can''] ''Delete'' ''flex'')"

text \<open>
  A reader of the markup of the sample pages, which counts the top-level elements of a
  string made of text and of tags with double-quoted attribute values: a start tag opens
  an element, an end tag closes the nearest open element of its name and is ignored when
  there is none.
\<close>

datatype scan = Data | TagOpen | StartName string | InStartTag string | InValue string
  | EndName string

definition is_letter :: "char \<Rightarrow> bool" where
  "is_letter c = ((97 \<le> (of_char c :: nat) \<and> (of_char c :: nat) \<le> 122)
                 \<or> (65 \<le> (of_char c :: nat) \<and> (of_char c :: nat) \<le> 90))"

definition open_element :: "string \<Rightarrow> string list \<times> nat \<Rightarrow> string list \<times> nat" where
  "open_element name sk = (name # fst sk, if fst sk = [] then Suc (snd sk) else snd sk)"

definition close_element :: "string \<Rightarrow> string list \<times> nat \<Rightarrow> string list \<times> nat" where
  "close_element name sk =
     (if name \<in> set (fst sk) then (tl (dropWhile (\<lambda>n. n \<noteq> name) (fst sk)), snd sk) else sk)"

fun scan_markup :: "scan \<Rightarrow> string list \<times> nat \<Rightarrow> string \<Rightarrow> nat" where
  "scan_markup sc sk [] = snd sk"
| "scan_markup Data sk (c # cs) =
     (if c = CHR ''<'' then scan_markup TagOpen sk cs else scan_markup Data sk cs)"
| "scan_markup TagOpen sk (c # cs) =
     (if c = CHR ''/'' then scan_markup (EndName []) sk cs
      else if is_letter c then scan_markup (StartName [c]) sk cs
      else scan_markup Data sk cs)"
| "scan_markup (StartName n) sk (c # cs) =
     (if c = CHR ''>'' then scan_markup Data (open_element n sk) cs
      else if is_space c then scan_markup (InStartTag n) sk cs
      else scan_markup (StartName (n @ [c])) sk cs)"
| "scan_markup (InStartTag n) sk (c # cs) =
     (if c = CHR ''>'' then scan_markup Data (open_element n sk) cs
      else if c = CHR 0x22 then scan_markup (InValue n) sk cs
      else scan_markup (InStartTag n) sk cs)"
| "scan_markup (InValue n) sk (c # cs) =
     (if c = CHR 0x22 then scan_markup (InStartTag n) sk cs
      else scan_markup (InValue n) sk cs)"
| "scan_markup (EndName n) sk (c # cs) =
     (if c = CHR ''>'' then scan_markup Data (close_element n sk) cs
      else scan_markup (EndName (n @ [c])) sk cs)"

definition sample_parser :: "string \<Rightarrow> nat" where
  "sample_parser s = scan_markup Data ([], 0) s"

definition sample_page :: page where
  "sample_page =
     \<lparr>menu_mode = None, max_width_horizontal = None, double_tap = False,
      elems = sample_elems, click_handlers = (\<lambda>n. []), menu = None,
      top_level_elements = sample_parser,
      bounding_rect = (\<lambda>m. (220, 100)), screen_width = 1280, screen_height = 720,
      last_tap = 0, trace = []\<rparr>"

definition sample_message :: message where
  "sample_message =
     \<lparr>mesid = Some ''7'', mes_buttons = [0, 1, 2, 3, 4], mes_edit_buttons = [5],
      edit_textarea = False\<rparr>"

text \<open>The same message without its edit button.\<close>

definition plain_message :: message where
  "plain_message = sample_message\<lparr>mes_buttons := [0, 1, 3, 4]\<rparr>"

text \<open>
  A message with the two buttons 0 and 3, on a page where the title of button 0 holds
  markup.
\<close>

definition two_buttons :: message where
  "two_buttons = sample_message\<lparr>mes_buttons := [0, 3]\<rparr>"

definition markup_page :: page where
  "markup_page =
     sample_page\<lparr>elems := (sample_elems)
       (0 := sample_button [''mes_button'', ''fa-solid'', ''fa-copy'']
               ''a</span></div><div>b'' ''flex'')\<rparr>"

text \<open>
  The sample page with the menu open from an earlier gesture (the browser reports a box
  220 wide and 100 high for it), on a screen 300 wide.
\<close>

definition narrow_page :: page where
  "narrow_page =
     sample_page\<lparr>menu := Some (new_menu\<lparr>shown := True\<rparr>),
                  screen_width := 300, screen_height := 600\<rparr>"

definition disabled_page :: page where
  "disabled_page = sample_page\<lparr>menu_mode := Some ''disabled''\<rparr>"

text \<open>A right-click on the text of the sample message, 50 from the right edge of the screen.\<close>

definition sample_gesture :: gesture where
  "sample_gesture = \<lparr>target = sample_message, pageX = Some 1230, pageY = Some 700\<rparr>"

section \<open>Properties of the tooltip parser\<close>

lemmas parse_defs = parse_tooltip_def split_tooltip_def get_property_def button_name_map_def
  object_prototype_keys_def search_def matches_at_def is_space_def is_line_terminator_def
  trim_def strip_markers_def

lemma matches_at_Nil [simp]: "\<not> matches_at []"
  by (simp add: matches_at_def)

lemma search_from_Some:
  "search_from k s = Some i \<Longrightarrow>
     k \<le> i \<and> i - k < length s \<and> matches_at (drop (i - k) s) \<and> (\<forall>j < i - k. \<not> matches_at (drop j s))"
proof (induction s arbitrary: k)
  case Nil
  then show ?case by simp
next
  case (Cons c cs)
  show ?case
  proof (cases "matches_at (c # cs)")
    case True
    with Cons.prems show ?thesis by simp
  next
    case False
    with Cons.prems have s: "search_from (Suc k) cs = Some i" by simp
    from Cons.IH [OF s] have ih: "Suc k \<le> i" "i - Suc k < length cs"
      "matches_at (drop (i - Suc k) cs)" "\<forall>j < i - Suc k. \<not> matches_at (drop j cs)"
      by auto
    from ih(1) have e: "i - k = Suc (i - Suc k)" by arith
    have "\<forall>j < i - k. \<not> matches_at (drop j (c # cs))"
    proof (intro allI impI)
      fix j assume "j < i - k"
      then show "\<not> matches_at (drop j (c # cs))"
        using False ih(4) e by (cases j) auto
    qed
    with ih e show ?thesis by simp
  qed
qed

lemma search_from_None:
  "search_from k s = None \<Longrightarrow> \<not> matches_at (drop j s)"
proof (induction s arbitrary: k j)
  case Nil
  then show ?case by simp
next
  case (Cons c cs)
  then show ?case by (cases j) (auto split: if_splits)
qed

lemma search_Some:
  "search s = Some i \<Longrightarrow>
     i < length s \<and> matches_at (drop i s) \<and> (\<forall>j < i. \<not> matches_at (drop j s))"
  using search_from_Some [of 0 s i] by (simp add: search_def)

lemma search_exists: "matches_at (drop j s) \<Longrightarrow> \<exists>i. search s = Some i"
  using search_from_None [of 0 s j] by (cases "search s") (auto simp: search_def)

lemma prototype_keys_no_match: "t \<in> set object_prototype_keys \<Longrightarrow> search t = None"
  by (auto simp: object_prototype_keys_def search_def matches_at_def is_space_def is_line_terminator_def)

lemma parse_tooltip_split:
  assumes "map_of button_name_map t = None" and "search t = Some i"
  shows "parse_tooltip (Some t) = \<lparr>ptext = Str (trim (take i t)), ptitle = strip_markers (drop i t)\<rparr>"
proof -
  from assms(2) have "t \<notin> set object_prototype_keys"
    using prototype_keys_no_match by fastforce
  moreover from assms(2) have "t \<noteq> []" by (auto simp: search_def)
  ultimately show ?thesis
    using assms by (simp add: parse_tooltip_def get_property_def split_tooltip_def)
qed







lemma replace_from_plain:
  "\<not> has_dash r \<Longrightarrow> r = [] \<or> last r \<noteq> CHR '')'' \<Longrightarrow> replace_from False r = r"
  by (induction r) (auto split: if_splits)

lemma replace_from_closed:
  "\<not> has_dash (u @ [CHR '')'']) \<Longrightarrow> replace_from False (u @ [CHR '')'']) = u"
  by (induction u) auto

lemma strip_markers_dash:
  assumes "dash_delim s" and "\<not> has_dash (drop 3 s)"
    and "drop 3 s = [] \<or> last (drop 3 s) \<noteq> CHR '')''"
  shows "strip_markers s = drop 3 s"
proof -
  from assms(1) obtain a d rest where s: "s = a # CHR ''-'' # d # rest"
    by (cases s rule: dash_delim.cases) auto
  with assms show ?thesis
    by (simp add: strip_markers_def replace_from_plain)
qed

lemma closes_nonempty: "closes r \<Longrightarrow> r \<noteq> []"
  by auto

lemma strip_markers_paren:
  assumes "paren_group s" and "\<not> has_dash s" and "last s = CHR '')''"
  shows "s = CHR ''('' # strip_markers s @ [CHR '')'']"
proof -
  from assms(1) obtain r where s: "s = CHR ''('' # r" "closes r"
    by (cases s) auto
  then have "r \<noteq> []" by auto
  with assms(3) s have "last r = CHR '')''" by simp
  with \<open>r \<noteq> []\<close> have r: "r = butlast r @ [CHR '')'']"
    by (metis append_butlast_last_id)
  from assms(2) s have nd: "\<not> has_dash r" "\<not> dash_delim s" by auto
  with r have "replace_from False (butlast r @ [CHR '')'']) = butlast r"
    by (metis replace_from_closed)
  with r have "replace_from False r = butlast r" by simp
  with s nd have "strip_markers s = butlast r"
    by (simp add: strip_markers_def)
  with r s show ?thesis by simp
qed



text \<open>
  Claim C6. A tooltip that is a key of the name-override table is answered from the table:
  the text is the mapped short label, the title is the tooltip itself, unchanged.
\<close>

theorem parse_tooltip_override:
  "map_of button_name_map t = Some l \<Longrightarrow> parse_tooltip (Some t) = \<lparr>ptext = Str l, ptitle = t\<rparr>"
  by (auto simp: parse_tooltip_def get_property_def button_name_map_def split: if_splits)

text \<open>The scenario of the specification, through the theorem.\<close>

theorem parse_tooltip_override_witness:
  "map_of button_name_map ''Exclude message from prompts'' = Some ''Exclude from prompts''
   \<and> parse_tooltip (Some ''Exclude message from prompts'')
       = \<lparr>ptext = Str ''Exclude from prompts'', ptitle = ''Exclude message from prompts''\<rparr>"
proof -
  have h: "map_of button_name_map ''Exclude message from prompts'' = Some ''Exclude from prompts''"
    by (simp add: button_name_map_def)
  from parse_tooltip_override [OF h] h show ?thesis by simp
qed

text \<open>
  Claim C7 says that a non-empty tooltip that is no override key and holds no delimiter
  comes back as the text, with an empty title. The tooltip \<open>constructor\<close> is no key of the
  table and holds no delimiter, but the lookup \<open>button_name_map[tooltip]\<close> finds the member
  every object inherits: the text is that built-in function and the title is the tooltip.
\<close>

theorem parse_tooltip_inherited_key:
  "map_of button_name_map ''constructor'' = None
   \<and> search ''constructor'' = None
   \<and> parse_tooltip (Some ''constructor'') = \<lparr>ptext = Builtin ''constructor'', ptitle = ''constructor''\<rparr>"
  by (simp add: parse_defs)

text \<open>
  What does hold of the fallback: \<open>parse_tooltip\<close> is a total function, an absent or empty
  tooltip gives two empty fields, and a tooltip that names no property of the table, own or
  inherited, and holds no delimiter is returned as the text.
\<close>

lemma parse_tooltip_absent:
  "parse_tooltip None = \<lparr>ptext = Str [], ptitle = []\<rparr>"
  "parse_tooltip (Some []) = \<lparr>ptext = Str [], ptitle = []\<rparr>"
  by (simp_all add: parse_tooltip_def)

lemma parse_tooltip_plain:
  assumes "t \<noteq> []" and "map_of button_name_map t = None" and "t \<notin> set object_prototype_keys"
    and "search t = None"
  shows "parse_tooltip (Some t) = \<lparr>ptext = Str t, ptitle = []\<rparr>"
  using assms by (simp add: parse_tooltip_def get_property_def split_tooltip_def)

text \<open>\<open>spec_last_match\<close> is the greatest index where the search expression matches.\<close>

lemma spec_last_match_from_None:
  "spec_last_match_from k s = None \<Longrightarrow> \<not> matches_at (drop j s)"
proof (induction s arbitrary: k j)
  case Nil
  then show ?case by simp
next
  case (Cons c cs)
  then show ?case by (cases j) (auto split: option.splits if_splits)
qed

lemma spec_last_match_from_Some:
  "spec_last_match_from k s = Some i \<Longrightarrow>
     k \<le> i \<and> i - k < length s \<and> matches_at (drop (i - k) s)
     \<and> (\<forall>j > i - k. \<not> matches_at (drop j s))"
proof (induction s arbitrary: k)
  case Nil
  then show ?case by simp
next
  case (Cons c cs)
  show ?case
  proof (cases "spec_last_match_from (Suc k) cs")
    case None
    with Cons.prems have m: "matches_at (c # cs)" and i: "i = k"
      by (auto split: if_splits)
    have "\<not> matches_at (drop j (c # cs))" if "j > 0" for j
      using that spec_last_match_from_None [OF None] by (cases j) auto
    with m i show ?thesis by simp
  next
    case (Some i')
    with Cons.prems have s: "spec_last_match_from (Suc k) cs = Some i" by simp
    from Cons.IH [OF s] have ih: "Suc k \<le> i" "i - Suc k < length cs"
      "matches_at (drop (i - Suc k) cs)" "\<forall>j > i - Suc k. \<not> matches_at (drop j cs)"
      by auto
    from ih(1) have e: "i - k = Suc (i - Suc k)" by arith
    have "\<not> matches_at (drop j (c # cs))" if "j > i - k" for j
      using that ih(4) e by (cases j) auto
    with ih e show ?thesis by simp
  qed
qed

lemma spec_last_match_greatest:
  "spec_last_match s = Some i \<Longrightarrow>
     i < length s \<and> matches_at (drop i s) \<and> (\<forall>j > i. \<not> matches_at (drop j s))"
  using spec_last_match_from_Some [of 0 s i] by (simp add: spec_last_match_def)

text \<open>
  Claim C3 as stated, refuted: in \<open>a - b - c\<close> the last occurrence of a delimiter is at
  index 5, and the text before it is \<open>a - b\<close>; the source splits at index 1, the first
  occurrence, and removes both delimiters from the rest.
\<close>

theorem parse_tooltip_last_match_counterexample:
  "map_of button_name_map ''a - b - c'' = None
   \<and> spec_last_match ''a - b - c'' = Some 5
   \<and> trim (take 5 ''a - b - c'') = ''a - b''
   \<and> parse_tooltip (Some ''a - b - c'') = \<lparr>ptext = Str ''a'', ptitle = ''bc''\<rparr>"
  by (simp add: parse_defs spec_last_match_def)

text \<open>
  Claim C3, amended. For a tooltip that is no override key and in which the search
  expression matches somewhere, \<open>parse_tooltip\<close> splits at the index \<open>i\<close> of the first
  (leftmost) match: the text is the substring before \<open>i\<close>, trimmed, and the title is the
  substring from \<open>i\<close> with the markers removed by the replace expression. When the match
  is a dash delimiter and the rest holds no further delimiter and does not end the
  string with a closing parenthesis, the title is the rest behind the delimiter; when the
  match is the parenthesized group, the string ends with its closing parenthesis and the
  group holds no dash delimiter, the title is what stands between the parentheses.
\<close>

theorem parse_tooltip_first_match:
  assumes "map_of button_name_map t = None" and "\<exists>j. matches_at (drop j t)"
  shows "\<exists>i. search t = Some i \<and> i < length t \<and> matches_at (drop i t)
           \<and> (\<forall>j<i. \<not> matches_at (drop j t))
           \<and> ptext (parse_tooltip (Some t)) = Str (trim (take i t))
           \<and> ptitle (parse_tooltip (Some t)) = strip_markers (drop i t)
           \<and> (dash_delim (drop i t) \<and> \<not> has_dash (drop (i + 3) t)
                \<and> (drop (i + 3) t = [] \<or> last t \<noteq> CHR '')'')
              \<longrightarrow> ptitle (parse_tooltip (Some t)) = drop (i + 3) t)
           \<and> (paren_group (drop i t) \<and> \<not> has_dash (drop i t) \<and> last t = CHR '')''
              \<longrightarrow> drop i t = ''('' @ ptitle (parse_tooltip (Some t)) @ '')'')"
proof -
  from assms(2) obtain i where i: "search t = Some i"
    using search_exists by blast
  note s = search_Some [OF i]
  note p = parse_tooltip_split [OF assms(1) i]
  have d: "ptitle (parse_tooltip (Some t)) = drop (i + 3) t"
    if "dash_delim (drop i t)" "\<not> has_dash (drop (i + 3) t)"
       "drop (i + 3) t = [] \<or> last t \<noteq> CHR '')''"
  proof -
    have e: "drop 3 (drop i t) = drop (i + 3) t" by (simp add: add.commute)
    from that(3) have "drop (i + 3) t = [] \<or> last (drop (i + 3) t) \<noteq> CHR '')''"
      by (cases "drop (i + 3) t = []") auto
    with that e have "strip_markers (drop i t) = drop 3 (drop i t)"
      by (intro strip_markers_dash) simp_all
    with p e show ?thesis by simp
  qed
  have q: "drop i t = ''('' @ ptitle (parse_tooltip (Some t)) @ '')''"
    if "paren_group (drop i t)" "\<not> has_dash (drop i t)" "last t = CHR '')''"
  proof -
    from s have "drop i t \<noteq> []" by simp
    then have "last (drop i t) = last t" by (simp add: last_drop)
    with that strip_markers_paren [of "drop i t"] p show ?thesis by simp
  qed
  from i s p d q show ?thesis by simp
qed

text \<open>
  The theorem at two tooltips, one split at a dash delimiter and one at a parenthesized
  group.
\<close>

theorem parse_tooltip_first_match_witness:
  "(map_of button_name_map ''Copy - to clipboard'' = None
    \<and> (\<exists>j. matches_at (drop j ''Copy - to clipboard''))
    \<and> search ''Copy - to clipboard'' = Some 4
    \<and> dash_delim (drop 4 ''Copy - to clipboard'')
    \<and> ptext (parse_tooltip (Some ''Copy - to clipboard'')) = Str ''Copy''
    \<and> ptitle (parse_tooltip (Some ''Copy - to clipboard'')) = ''to clipboard'')
   \<and> (map_of button_name_map ''Narrate (TTS)'' = None
    \<and> (\<exists>j. matches_at (drop j ''Narrate (TTS)''))
    \<and> search ''Narrate (TTS)'' = Some 8
    \<and> paren_group (drop 8 ''Narrate (TTS)'')
    \<and> ptext (parse_tooltip (Some ''Narrate (TTS)'')) = Str ''Narrate''
    \<and> ''(TTS)'' = ''('' @ ptitle (parse_tooltip (Some ''Narrate (TTS)'')) @ '')'')"
proof -
  let ?t = "''Copy - to clipboard''"
  let ?u = "''Narrate (TTS)''"
  have t1: "map_of button_name_map ?t = None" by (simp add: button_name_map_def)
  have t2: "dash_delim (drop 4 ?t)" by (simp add: is_space_def)
  then have t3: "\<exists>j. matches_at (drop j ?t)" unfolding matches_at_def by blast
  have t4: "search ?t = Some 4" by (simp add: parse_defs)
  have t5: "\<not> has_dash (drop (4 + 3) ?t)" "last ?t \<noteq> CHR '')''" "trim (take 4 ?t) = ''Copy''"
    "drop (4 + 3) ?t = ''to clipboard''"
    by (simp_all add: is_space_def trim_def)
  from parse_tooltip_first_match [OF t1 t3] t2 t4 t5
  have a: "ptext (parse_tooltip (Some ?t)) = Str ''Copy''
      \<and> ptitle (parse_tooltip (Some ?t)) = ''to clipboard''"
    by auto
  have u1: "map_of button_name_map ?u = None" by (simp add: button_name_map_def)
  have u2: "paren_group (drop 8 ?u)" by (simp add: is_space_def is_line_terminator_def)
  then have u3: "\<exists>j. matches_at (drop j ?u)" unfolding matches_at_def by blast
  have u4: "search ?u = Some 8" by (simp add: parse_defs)
  have u5: "\<not> has_dash (drop 8 ?u)" "last ?u = CHR '')''" "trim (take 8 ?u) = ''Narrate''"
    "drop 8 ?u = ''(TTS)''"
    by (simp_all add: is_space_def trim_def)
  from parse_tooltip_first_match [OF u1 u3] u2 u4 u5
  have b: "ptext (parse_tooltip (Some ?u)) = Str ''Narrate''
      \<and> ''(TTS)'' = ''('' @ ptitle (parse_tooltip (Some ?u)) @ '')''"
    by auto
  from t1 t2 t3 t4 a u1 u2 u3 u4 b show ?thesis by blast
qed



section \<open>Properties of the button collector\<close>

lemmas sample_defs = sample_page_def sample_message_def sample_elems_def sample_button_def
  plain_message_def two_buttons_def markup_page_def narrow_page_def disabled_page_def

lemmas collector_defs = get_buttons_def message_buttons_def edit_controls_def delete_controls_def
  has_class_def on_click_def array_splice_def

lemma indexOf_jquery: "indexOf (map Elem ns) (JQuery sel) = -1"
  by (induction ns) auto

lemma splice_last: "xs \<noteq> [] \<Longrightarrow> array_splice (-1) 1 [] xs = butlast xs"
  by (cases xs rule: rev_cases) (auto simp: array_splice_def Let_def nat_diff_distrib')

lemma splice_front: "array_splice 0 0 [x] xs = x # xs"
  by (simp add: array_splice_def)

lemma edit_controls_subset:
  "edit_controls msg st \<noteq> [] \<Longrightarrow> message_buttons msg st \<noteq> []"
  by (auto simp: edit_controls_def)

lemma get_buttons_order:
  assumes "edit_controls msg st \<noteq> []"
  shows "fst (get_buttons msg st)
       = first_of (edit_controls msg st) # map Elem (butlast (message_buttons msg st))
           @ [first_of (delete_controls msg st)]"
proof -
  from assms have ne: "message_buttons msg st \<noteq> []" by (rule edit_controls_subset)
  then have "array_splice (-1) 1 [] (map Elem (message_buttons msg st))
      = map Elem (butlast (message_buttons msg st))"
    using splice_last [of "map Elem (message_buttons msg st)"] by (simp add: map_butlast)
  with assms show ?thesis
    by (simp add: get_buttons_def Let_def indexOf_jquery splice_front)
qed

lemma get_buttons_no_edit:
  assumes "edit_controls msg st = []"
  shows "fst (get_buttons msg st) = map Elem (message_buttons msg st)"
  using assms by (simp add: get_buttons_def Let_def)

lemma get_buttons_page:
  "snd (get_buttons msg st)
     = on_click (delete_controls msg st) (EditContext (Number (mesid msg))) st"
  by (simp add: get_buttons_def Let_def)

lemma first_of_edit:
  "edit_controls msg st \<noteq> [] \<Longrightarrow> \<exists>n. first_of (edit_controls msg st) = Elem n"
  by (cases "edit_controls msg st") auto

text \<open>
  Claim C2 on the scenario of the specification, five buttons with the edit button at
  index 2. The claim expects the order \<open>2, 0, 1, 3, 4, 5\<close>. The source looks the jQuery
  selection \<open>$edit\<close> up in the array of elements, finds nothing (\<open>-1\<close>), and so removes the last
  button instead of the edit button: button 4 is lost and the edit button stands twice.
\<close>

theorem get_buttons_scenario:
  "message_buttons sample_message sample_page = [0, 1, 2, 3, 4]
   \<and> edit_controls sample_message sample_page = [2]
   \<and> delete_controls sample_message sample_page = [5]
   \<and> fst (get_buttons sample_message sample_page)
       = [Elem 2, Elem 0, Elem 1, Elem 2, Elem 3, Elem 5]"
  by (simp add: sample_defs collector_defs Let_def)

lemma on_click_elems [simp]: "elems (on_click ns h st) = elems st"
  by (simp add: on_click_def)

lemma get_buttons_elems [simp]: "elems (snd (get_buttons msg st)) = elems st"
  by (simp add: get_buttons_page)

lemma delete_controls_cong:
  "elems st' = elems st \<Longrightarrow> delete_controls msg st' = delete_controls msg st"
  by (simp add: delete_controls_def has_class_def [abs_def])

lemma get_buttons_handlers:
  "d \<in> set (delete_controls msg st) \<Longrightarrow>
     click_handlers (snd (get_buttons msg st)) d
       = click_handlers st d @ [EditContext (Number (mesid msg))]"
  by (simp add: get_buttons_page on_click_def)

lemma get_buttons_other_handlers:
  "d \<notin> set (delete_controls msg st) \<Longrightarrow>
     click_handlers (snd (get_buttons msg st)) d = click_handlers st d"
  by (simp add: get_buttons_page on_click_def)

lemma trace_on_document_click [simp]: "trace (on_document_click st) = trace st"
  by (simp add: on_document_click_def split: option.splits)

lemma trace_get_buttons [simp]: "trace (snd (get_buttons msg st)) = trace st"
  by (simp add: get_buttons_page on_click_def)

text \<open>
  Claim C4 as stated, refuted in its last part: on a message without an edit button the
  collector returns the buttons as they are, and the delete control is not among them.
\<close>

theorem get_buttons_no_edit_counterexample:
  "edit_controls plain_message sample_page = []
   \<and> delete_controls plain_message sample_page = [5]
   \<and> fst (get_buttons plain_message sample_page) = [Elem 0, Elem 1, Elem 3, Elem 4]"
  by (simp add: sample_defs collector_defs Let_def)

text \<open>
  Claim C4, amended. After a collection on a message, every delete control of the message
  carries, behind the handlers it had, a handler that calls \<open>setEditedMessageId\<close> with
  \<open>Number\<close> of the \<open>mesid\<close> of the message; a click on the control runs it right before the
  click reaches the handlers of the host. When the message has a button tagged
  \<open>mes_edit\<close>, the last entry of the collected order is the first delete control; when
  it has none, nothing is appended and the collected order is the buttons of the message
  as they stand.
\<close>

theorem get_buttons_delete_proxy:
  assumes "get_buttons msg st = (buttons, st')"
  shows "(\<forall>d \<in> set (delete_controls msg st).
            click_handlers st' d = click_handlers st d @ [EditContext (Number (mesid msg))]
          \<and> click_effects st' d
              = map run_handler (click_handlers st d)
                  @ [SetEditedMessageId (Number (mesid msg)), Clicked d]
          \<and> trace (click d st')
              = trace st @ map run_handler (click_handlers st d)
                  @ [SetEditedMessageId (Number (mesid msg)), Clicked d])
       \<and> (edit_controls msg st \<noteq> [] \<longrightarrow>
            buttons \<noteq> [] \<and> last buttons = first_of (delete_controls msg st))
       \<and> (edit_controls msg st = [] \<longrightarrow> buttons = map Elem (message_buttons msg st))"
proof -
  from assms have b: "buttons = fst (get_buttons msg st)" and s: "st' = snd (get_buttons msg st)"
    by simp_all
  have 1: "click_handlers st' d = click_handlers st d @ [EditContext (Number (mesid msg))]"
    if "d \<in> set (delete_controls msg st)" for d
    using that s by (simp add: get_buttons_handlers)
  then have 2: "click_effects st' d
              = map run_handler (click_handlers st d)
                  @ [SetEditedMessageId (Number (mesid msg)), Clicked d]"
    if "d \<in> set (delete_controls msg st)" for d
    using that by (simp add: click_effects_def)
  then have 3: "trace (click d st')
              = trace st @ map run_handler (click_handlers st d)
                  @ [SetEditedMessageId (Number (mesid msg)), Clicked d]"
    if "d \<in> set (delete_controls msg st)" for d
    using that s by (simp add: click_def)
  have 4: "buttons \<noteq> [] \<and> last buttons = first_of (delete_controls msg st)"
    if "edit_controls msg st \<noteq> []"
    using that b by (simp add: get_buttons_order)
  have 5: "buttons = map Elem (message_buttons msg st)"
    if "edit_controls msg st = []"
    using that b by (simp add: get_buttons_no_edit)
  from 1 2 3 4 5 show ?thesis by blast
qed

text \<open>
  The theorem on the sample message, whose \<open>mesid\<close> is 7, and on the message without an
  edit button.
\<close>

theorem get_buttons_delete_proxy_witness:
  "((5 \<in> set (delete_controls sample_message sample_page)
     \<and> edit_controls sample_message sample_page \<noteq> []
     \<and> Number (mesid sample_message) = Num 7)
    \<and> trace (click 5 (snd (get_buttons sample_message sample_page)))
        = [SetEditedMessageId (Num 7), Clicked 5]
    \<and> last (fst (get_buttons sample_message sample_page)) = Elem 5)
   \<and> ((5 \<in> set (delete_controls plain_message sample_page)
     \<and> edit_controls plain_message sample_page = [])
    \<and> trace (click 5 (snd (get_buttons plain_message sample_page)))
        = [SetEditedMessageId (Num 7), Clicked 5]
    \<and> fst (get_buttons plain_message sample_page) = [Elem 0, Elem 1, Elem 3, Elem 4])"
proof -
  have h: "get_buttons msg sample_page
      = (fst (get_buttons msg sample_page), snd (get_buttons msg sample_page))" for msg
    by simp
  have d: "delete_controls sample_message sample_page = [5]"
    and e: "edit_controls sample_message sample_page = [2]"
    by (simp_all add: sample_defs collector_defs)
  have d': "delete_controls plain_message sample_page = [5]"
    and e': "edit_controls plain_message sample_page = []"
    and m': "message_buttons plain_message sample_page = [0, 1, 3, 4]"
    by (simp_all add: sample_defs collector_defs)
  have n: "Number (mesid sample_message) = Num 7" "Number (mesid plain_message) = Num 7"
    by (simp_all add: sample_message_def plain_message_def Number_def is_digit_def decimal_def)
  have c: "click_handlers sample_page 5 = []" "trace sample_page = []"
    by (simp_all add: sample_page_def)
  from get_buttons_delete_proxy [OF h, of sample_message] d e n c
  have a: "trace (click 5 (snd (get_buttons sample_message sample_page)))
        = [SetEditedMessageId (Num 7), Clicked 5]
    \<and> last (fst (get_buttons sample_message sample_page)) = Elem 5"
    by simp
  from get_buttons_delete_proxy [OF h, of plain_message] d' e' m' n c
  have b: "trace (click 5 (snd (get_buttons plain_message sample_page)))
        = [SetEditedMessageId (Num 7), Clicked 5]
    \<and> fst (get_buttons plain_message sample_page) = [Elem 0, Elem 1, Elem 3, Elem 4]"
    by simp
  from a b d e n d' e' show ?thesis by simp
qed

lemma collect_times_elems [simp]: "elems (collect_times n msg st) = elems st"
  by (induction n) simp_all

text \<open>
  Claim C10. Each collection on a message binds one more click handler on each of its
  delete controls and removes none: after \<open>n\<close> collections the control carries the
  handlers it had, then \<open>n\<close> handlers that set the edited-message identifier, and one
  click on it calls \<open>setEditedMessageId\<close> \<open>n\<close> times before the click reaches the host.
\<close>

theorem collect_times_handlers:
  assumes "d \<in> set (delete_controls msg st)"
  shows "click_handlers (collect_times n msg st) d
           = click_handlers st d @ replicate n (EditContext (Number (mesid msg)))
       \<and> click_effects (collect_times n msg st) d
           = map run_handler (click_handlers st d)
               @ replicate n (SetEditedMessageId (Number (mesid msg))) @ [Clicked d]"
proof -
  have h: "click_handlers (collect_times n msg st) d
           = click_handlers st d @ replicate n (EditContext (Number (mesid msg)))"
  proof (induction n)
    case 0
    show ?case by simp
  next
    case (Suc n)
    have "delete_controls msg (collect_times n msg st) = delete_controls msg st"
      by (rule delete_controls_cong) simp
    with assms have "d \<in> set (delete_controls msg (collect_times n msg st))" by simp
    then have "click_handlers (collect_times (Suc n) msg st) d
        = click_handlers (collect_times n msg st) d @ [EditContext (Number (mesid msg))]"
      by (simp add: get_buttons_handlers)
    with Suc show ?case by (simp add: replicate_append_same)
  qed
  then show ?thesis by (simp add: click_effects_def)
qed

text \<open>Three collections on the sample message.\<close>

theorem collect_times_handlers_witness:
  "5 \<in> set (delete_controls sample_message sample_page)
   \<and> click_effects (collect_times 3 sample_message sample_page) 5
       = [SetEditedMessageId (Num 7), SetEditedMessageId (Num 7), SetEditedMessageId (Num 7),
          Clicked 5]"
proof -
  have d: "5 \<in> set (delete_controls sample_message sample_page)"
    by (simp add: sample_defs collector_defs)
  have n: "Number (mesid sample_message) = Num 7"
    by (simp add: sample_message_def Number_def is_digit_def decimal_def)
  have c: "click_handlers sample_page 5 = []" by (simp add: sample_page_def)
  have r: "replicate 3 x = [x, x, x]" for x :: effect by (simp add: numeral_3_eq_3)
  from collect_times_handlers [OF d, of 3] n c r d show ?thesis by simp
qed

section \<open>Properties of the menu builder\<close>

lemmas menu_defs = update_menu_def collect_def get_menu_mode_def removeClass_def addClass_def
  new_menu_def vertical_menu_class_def horizontal_menu_class_def

lemmas parser_defs = sample_parser_def item_template_def horizontal_item_class_def
  open_element_def close_element_def is_letter_def tooltip_of_def

lemma source_make_items:
  "map source (make_items p mode n e) = replicate (p (item_template mode (tooltip_of e))) n"
  by (simp add: make_items_def Let_def comp_def map_replicate_const)

lemma add_items_elems:
  "add_items p mode els (map Elem ns) acc
     = Inr (acc @ concat (map (\<lambda>n. make_items p mode n (els n))
                            (filter (\<lambda>n. display (els n) \<noteq> ''none'') ns)))"
  by (induction ns arbitrary: acc) simp_all

lemma add_items_undefined:
  "add_items p mode els (map Elem ns @ [Undefined]) acc
     = Inl (TypeError, acc @ concat (map (\<lambda>n. make_items p mode n (els n))
                                       (filter (\<lambda>n. display (els n) \<noteq> ''none'') ns)))"
  by (induction ns arbitrary: acc) simp_all

lemma visible_sources_elems:
  "visible_sources st (map Elem ns) = filter (\<lambda>n. display (elems st n) \<noteq> ''none'') ns"
  by (induction ns) (simp_all add: visible_sources_def)

lemma visible_sources_undefined:
  "visible_sources st (map Elem ns @ [Undefined]) = filter (\<lambda>n. display (elems st n) \<noteq> ''none'') ns"
  by (induction ns) (simp_all add: visible_sources_def)

lemma collect_shape:
  "\<exists>ns. fst (collect msg edit st) = map Elem ns \<or> fst (collect msg edit st) = map Elem ns @ [Undefined]"
proof (cases edit)
  case True
  then show ?thesis by (auto simp: collect_def get_edit_buttons_def)
next
  case False
  show ?thesis
  proof (cases "edit_controls msg st = []")
    case True
    with False show ?thesis by (auto simp: collect_def get_buttons_no_edit)
  next
    case ne: False
    then obtain e where e: "first_of (edit_controls msg st) = Elem e"
      using first_of_edit by blast
    let ?ns = "e # butlast (message_buttons msg st)"
    show ?thesis
    proof (cases "delete_controls msg st")
      case Nil
      with False ne e have "fst (collect msg edit st) = map Elem ?ns @ [Undefined]"
        by (simp add: collect_def get_buttons_order)
      then show ?thesis by blast
    next
      case (Cons d ds)
      with False ne e have "fst (collect msg edit st) = map Elem (?ns @ [d])"
        by (simp add: collect_def get_buttons_order)
      then show ?thesis by blast
    qed
  qed
qed

lemma collect_elems [simp]: "elems (snd (collect msg edit st)) = elems st"
  by (simp add: collect_def)

lemma collect_parser [simp]:
  "top_level_elements (snd (collect msg edit st)) = top_level_elements st"
  by (simp add: collect_def get_buttons_page on_click_def)

lemma update_menu_enabled:
  assumes "get_menu_mode st \<noteq> ''disabled''"
  shows "\<exists>m. update_menu msg edit st =
      (case add_items (top_level_elements st) (get_menu_mode st) (elems st)
              (fst (collect msg edit st)) [] of
         Inl (e, its) \<Rightarrow> Inl (e, (snd (collect msg edit st))\<lparr>menu := Some (m\<lparr>items := its\<rparr>)\<rparr>)
       | Inr its \<Rightarrow> Inr ((snd (collect msg edit st))\<lparr>menu := Some (m\<lparr>items := its\<rparr>)\<rparr>))"
proof -
  have i: "items (removeClass cs (case menu st of None \<Rightarrow> new_menu | Some m \<Rightarrow> m\<lparr>items := []\<rparr>)) = []"
    for cs
    by (simp add: removeClass_def new_menu_def split: option.splits)
  have j: "items (addClass c m) = items m" for c m
    by (simp add: addClass_def)
  show ?thesis
    using assms
    by (auto simp: update_menu_def Let_def i j split_beta intro: exI)
qed

text \<open>
  What the builder does keep: every visible collected button gets as many items as its
  template has top-level elements, in the order of the collection; so one item each, in
  that order, when every template is read as a single element.
\<close>

lemma update_menu_items:
  assumes "get_menu_mode st \<noteq> ''disabled''"
  shows "menu_sources (page_after (update_menu msg edit st))
       = concat (map (\<lambda>n. replicate (top_level_elements st
                              (item_template (get_menu_mode st) (tooltip_of (elems st n)))) n)
                   (visible_sources st (fst (collect msg edit st))))"
proof -
  let ?c = "fst (collect msg edit st)"
  have m: "map source (concat (map (\<lambda>n. make_items p mode n (els n)) ns))
      = concat (map (\<lambda>n. replicate (p (item_template mode (tooltip_of (els n)))) n) ns)"
    for p mode els ns
    by (induction ns) (simp_all add: source_make_items)
  from update_menu_enabled [OF assms] obtain m where u: "update_menu msg edit st =
      (case add_items (top_level_elements st) (get_menu_mode st) (elems st) ?c [] of
         Inl (e, its) \<Rightarrow> Inl (e, (snd (collect msg edit st))\<lparr>menu := Some (m\<lparr>items := its\<rparr>)\<rparr>)
       | Inr its \<Rightarrow> Inr ((snd (collect msg edit st))\<lparr>menu := Some (m\<lparr>items := its\<rparr>)\<rparr>))"
    by blast
  from collect_shape obtain ns where "?c = map Elem ns \<or> ?c = map Elem ns @ [Undefined]"
    by blast
  then show ?thesis
  proof
    assume c: "?c = map Elem ns"
    with u show ?thesis
      by (simp add: add_items_elems visible_sources_elems menu_sources_def m)
  next
    assume c: "?c = map Elem ns @ [Undefined]"
    with u show ?thesis
      by (simp add: add_items_undefined visible_sources_undefined menu_sources_def m)
  qed
qed

lemma update_menu_one_item_each:
  assumes "get_menu_mode st \<noteq> ''disabled''"
    and "\<And>n. top_level_elements st (item_template (get_menu_mode st) (tooltip_of (elems st n))) = 1"
  shows "menu_sources (page_after (update_menu msg edit st))
       = visible_sources st (fst (collect msg edit st))"
proof -
  have "concat (map (\<lambda>n. replicate 1 n) ns) = ns" for ns :: "node list"
    by (induction ns) simp_all
  with update_menu_items [OF assms(1), of msg edit] assms(2) show ?thesis by simp
qed

text \<open>
  Claim C1 on a message with two visible buttons, the first with the title
  \<open>a</span></div><div>b\<close>. The claim expects two items, for the buttons 0 and 3. The
  source pastes the tooltip into the template as it is, the template of button 0 is read
  as two top-level elements, and both are appended: the menu gets three items, two of
  them for button 0.
\<close>

theorem update_menu_markup_tooltip:
  "get_menu_mode markup_page = ''vertical''
   \<and> fst (collect two_buttons False markup_page) = [Elem 0, Elem 3]
   \<and> visible_sources markup_page [Elem 0, Elem 3] = [0, 3]
   \<and> tooltip_of (elems markup_page 0) = Some ''a</span></div><div>b''
   \<and> top_level_elements markup_page
        (item_template ''vertical'' (Some ''a</span></div><div>b'')) = 2
   \<and> menu_sources (page_after (update_menu two_buttons False markup_page)) = [0, 0, 3]"
proof -
  have h: "get_menu_mode markup_page = ''vertical''"
    by (simp add: get_menu_mode_def sample_defs)
  have c: "fst (collect two_buttons False markup_page) = [Elem 0, Elem 3]"
    by (simp add: collect_def sample_defs collector_defs Let_def)
  have v: "visible_sources markup_page [Elem 0, Elem 3] = [0, 3]"
    by (simp add: visible_sources_def sample_defs)
  have t: "tooltip_of (elems markup_page 0) = Some ''a</span></div><div>b''"
    "tooltip_of (elems markup_page 3) = Some ''Exclude message from prompts''"
    by (simp_all add: tooltip_of_def sample_defs)
  have p: "top_level_elements markup_page
        (item_template ''vertical'' (Some ''a</span></div><div>b'')) = 2"
    "top_level_elements markup_page
        (item_template ''vertical'' (Some ''Exclude message from prompts'')) = 1"
    by (simp_all add: sample_defs parser_defs parse_defs)
  have d: "get_menu_mode markup_page \<noteq> ''disabled''" using h by simp
  have r: "replicate 2 x = [x, x]" for x :: node by (simp add: numeral_2_eq_2)
  from update_menu_items [OF d, of two_buttons False] h c v t p r
  have "menu_sources (page_after (update_menu two_buttons False markup_page)) = [0, 0, 3]"
    by simp
  with h c v t p show ?thesis by simp
qed

section \<open>Properties of the positioner\<close>

lemma sample_opened:
  "menu_visible (run [ContextMenu sample_gesture] sample_page)"
  "menu_left (run [ContextMenu sample_gesture] sample_page) = Some 1230"
  "menu_top (run [ContextMenu sample_gesture] sample_page) = Some 700"
  "menu_mode (run [ContextMenu sample_gesture] sample_page) = None"
  by (simp_all add: run_def on_contextmenu_def handle_interaction_def sample_gesture_def
      menu_defs sample_defs collector_defs parser_defs parse_defs Let_def make_items_def
      set_menu_position_def getBoundingClientRect_def show_menu_def menu_visible_def
      menu_left_def menu_top_def)

text \<open>
  Claim C5 at two inputs. With the menu open from an earlier gesture on a screen 300
  wide, a box 220 wide and the pointer at \<open>x = 100\<close>, anchoring at the pointer would
  overflow the right edge; the menu is shifted left by its width and its left edge lands
  at \<open>-120\<close>, off the screen. On the sample page, where the menu is not displayed when
  the gesture comes, the box is measured before the menu is shown, as 0 by 0: with the
  pointer 50 from the right edge of a screen 1280 wide nothing is shifted, and the
  menu, 220 wide once shown, is anchored at \<open>x = 1230\<close>.
\<close>

theorem set_menu_position_leaves_screen:
  "(menu narrow_page = Some (new_menu\<lparr>shown := True\<rparr>)
    \<and> getBoundingClientRect narrow_page (new_menu\<lparr>shown := True\<rparr>) = (220, 100)
    \<and> screen_width narrow_page = 300
    \<and> menu_left (page_after (set_menu_position (Some 100) (Some 50) narrow_page)) = Some (- 120))
   \<and> (menu sample_page = None
    \<and> bounding_rect sample_page = (\<lambda>m. (220, 100))
    \<and> screen_width sample_page = 1280
    \<and> pageX sample_gesture = Some 1230
    \<and> menu_visible (run [ContextMenu sample_gesture] sample_page)
    \<and> menu_left (run [ContextMenu sample_gesture] sample_page) = Some 1230)"
proof -
  have a: "menu narrow_page = Some (new_menu\<lparr>shown := True\<rparr>)
    \<and> getBoundingClientRect narrow_page (new_menu\<lparr>shown := True\<rparr>) = (220, 100)
    \<and> screen_width narrow_page = 300
    \<and> menu_left (page_after (set_menu_position (Some 100) (Some 50) narrow_page)) = Some (- 120)"
    by (simp add: narrow_page_def sample_page_def set_menu_position_def menu_left_def
        getBoundingClientRect_def new_menu_def)
  have b: "menu sample_page = None \<and> bounding_rect sample_page = (\<lambda>m. (220, 100))
    \<and> screen_width sample_page = 1280 \<and> pageX sample_gesture = Some 1230"
    by (simp add: sample_page_def sample_gesture_def)
  from a b sample_opened(1,2) show ?thesis by blast
qed

section \<open>Properties of the interaction controller\<close>

lemma menu_mode_disabled:
  "get_menu_mode st = ''disabled'' \<longleftrightarrow> menu_mode st = Some ''disabled''"
  by (auto simp: get_menu_mode_def split: option.splits)

lemma get_menu_mode_last_tap [simp]: "get_menu_mode (st\<lparr>last_tap := t\<rparr>) = get_menu_mode st"
  by (simp add: get_menu_mode_def)

lemma step_disabled:
  assumes "get_menu_mode st = ''disabled''" and "keeps_disabled ev"
  shows "\<exists>t. step st ev = st\<lparr>last_tap := t\<rparr>"
proof (cases ev)
  case (ContextMenu e)
  have "st = st\<lparr>last_tap := last_tap st\<rparr>" by simp
  moreover from assms ContextMenu have "step st ev = st"
    by (simp add: on_contextmenu_def handle_interaction_def)
  ultimately show ?thesis by metis
next
  case (TouchEnd now msg)
  with assms have "step st ev = st\<lparr>last_tap := now\<rparr>"
    by (simp add: on_touchend_def handle_interaction_def Let_def)
  then show ?thesis by blast
next
  case DocumentClick
  have "st = st\<lparr>last_tap := last_tap st\<rparr>" by simp
  moreover from assms DocumentClick have "step st ev = st"
    by (simp add: on_document_click_def)
  ultimately show ?thesis by metis
next
  case (ChangeMenuMode v)
  have "st = st\<lparr>last_tap := last_tap st\<rparr>" by simp
  moreover from assms ChangeMenuMode have "step st ev = st"
    by (simp add: set_settings_menu_mode_def menu_mode_disabled)
  ultimately show ?thesis by metis
qed

lemma run_disabled:
  assumes "get_menu_mode st = ''disabled''" and "list_all keeps_disabled evs"
  shows "\<exists>t. run evs st = st\<lparr>last_tap := t\<rparr>"
  using assms(2)
proof (induction evs rule: rev_induct)
  case Nil
  have "st = st\<lparr>last_tap := last_tap st\<rparr>" by simp
  then show ?case unfolding run_def by (metis foldl_Nil)
next
  case (snoc ev evs)
  then obtain t where t: "run evs st = st\<lparr>last_tap := t\<rparr>" by auto
  with assms(1) have "get_menu_mode (run evs st) = ''disabled''" by simp
  moreover from snoc.prems have "keeps_disabled ev" by simp
  ultimately obtain t' where "step (run evs st) ev = (run evs st)\<lparr>last_tap := t'\<rparr>"
    using step_disabled by blast
  with t have "run (evs @ [ev]) st = st\<lparr>last_tap := t'\<rparr>"
    by (simp add: run_def)
  then show ?case by blast
qed

lemma run_append: "run (xs @ ys) st = run ys (run xs st)"
  by (simp add: run_def)

text \<open>
  Claim C9 as stated, refuted in its last part: the menu is opened on the sample page
  and the mode is then set to \<open>disabled\<close>. The page is in disabled mode with the menu
  visible, and it stays so over a click, a right-click and a double tap, since the click
  listener returns before it hides the menu.
\<close>

theorem disabled_mode_open_menu_counterexample:
  "get_menu_mode (run [ContextMenu sample_gesture, ChangeMenuMode ''disabled''] sample_page)
     = ''disabled''
   \<and> menu_visible (run [ContextMenu sample_gesture, ChangeMenuMode ''disabled''] sample_page)
   \<and> menu_visible (run [ContextMenu sample_gesture, ChangeMenuMode ''disabled'', DocumentClick,
                          ContextMenu sample_gesture, TouchEnd 100 sample_message,
                          TouchEnd 250 sample_message] sample_page)"
proof -
  let ?o = "run [ContextMenu sample_gesture] sample_page"
  let ?d = "set_settings_menu_mode ''disabled'' ?o"
  let ?rest = "[DocumentClick, ContextMenu sample_gesture, TouchEnd 100 sample_message,
                TouchEnd 250 sample_message]"
  have d: "run [ContextMenu sample_gesture, ChangeMenuMode ''disabled''] sample_page = ?d"
    by (simp add: run_def)
  have m: "get_menu_mode ?d = ''disabled''"
    by (simp add: get_menu_mode_def set_settings_menu_mode_def)
  have v: "menu_visible ?d"
    using sample_opened(1) by (simp add: menu_visible_def set_settings_menu_mode_def)
  have "list_all keeps_disabled ?rest" by simp
  from run_disabled [OF m this] obtain t where "run ?rest ?d = ?d\<lparr>last_tap := t\<rparr>"
    by blast
  with v have "menu_visible (run ?rest ?d)" by (simp add: menu_visible_def)
  moreover have "run ([ContextMenu sample_gesture, ChangeMenuMode ''disabled''] @ ?rest) sample_page
      = run ?rest ?d"
    using d by (simp only: run_append)
  ultimately have "menu_visible (run ([ContextMenu sample_gesture, ChangeMenuMode ''disabled'']
      @ ?rest) sample_page)"
    by simp
  with d m v show ?thesis by simp
qed

text \<open>
  Claim C9, amended. With the setting \<open>menu_mode\<close> at \<open>disabled\<close>, \<open>handle_interaction\<close>
  returns the page as it is: nothing is built, positioned or shown, and the default action
  of the event is not prevented; the click listener leaves the page as it is too. Over
  any sequence of right-clicks, taps and clicks, and of changes of the setting that keep
  it at \<open>disabled\<close>, the page changes in the time of the last tap only: the menu is the
  one of the start, not visible if it was not visible, and visible if it was.
\<close>

theorem disabled_mode_is_inert:
  assumes "get_menu_mode st = ''disabled''" and "list_all keeps_disabled evs"
  shows "handle_interaction e st = Inr st
       \<and> on_contextmenu e st = Inr st
       \<and> on_touchend now msg st = Inr (st\<lparr>last_tap := now\<rparr>)
       \<and> on_document_click st = st
       \<and> (\<exists>t. run evs st = st\<lparr>last_tap := t\<rparr>)
       \<and> menu (run evs st) = menu st
       \<and> trace (run evs st) = trace st
       \<and> menu_visible (run evs st) = menu_visible st"
proof -
  note d = run_disabled [OF assms]
  then obtain t where t: "run evs st = st\<lparr>last_tap := t\<rparr>"
    by blast
  then have m: "menu (run evs st) = menu st" "trace (run evs st) = trace st"
    "menu_visible (run evs st) = menu_visible st"
    by (simp_all add: menu_visible_def)
  from assms(1) have h: "handle_interaction e st = Inr st" for e
    by (simp add: handle_interaction_def)
  then have c: "on_contextmenu e st = Inr st"
    by (simp add: on_contextmenu_def)
  from h have u: "on_touchend now msg st = Inr (st\<lparr>last_tap := now\<rparr>)"
    by (simp add: on_touchend_def Let_def)
  from assms(1) have k: "on_document_click st = st"
    by (simp add: on_document_click_def)
  from h c u k d m show ?thesis by blast
qed

text \<open>
  A right-click, a double tap, a click and the setting chosen again, on the sample page
  in disabled mode.
\<close>

theorem disabled_mode_is_inert_witness:
  "(get_menu_mode disabled_page = ''disabled''
    \<and> list_all keeps_disabled [ContextMenu sample_gesture, TouchEnd 100 sample_message,
          TouchEnd 250 sample_message, DocumentClick, ChangeMenuMode ''disabled''])
   \<and> \<not> menu_visible disabled_page
   \<and> handle_interaction sample_gesture disabled_page = Inr disabled_page
   \<and> menu (run [ContextMenu sample_gesture, TouchEnd 100 sample_message,
                 TouchEnd 250 sample_message, DocumentClick, ChangeMenuMode ''disabled'']
             disabled_page) = None
   \<and> \<not> menu_visible (run [ContextMenu sample_gesture, TouchEnd 100 sample_message,
                 TouchEnd 250 sample_message, DocumentClick, ChangeMenuMode ''disabled'']
             disabled_page)"
proof -
  let ?evs = "[ContextMenu sample_gesture, TouchEnd 100 sample_message,
                 TouchEnd 250 sample_message, DocumentClick, ChangeMenuMode ''disabled'']"
  have h: "get_menu_mode disabled_page = ''disabled''"
    by (simp add: get_menu_mode_def disabled_page_def)
  have k: "list_all keeps_disabled ?evs" by simp
  have v: "\<not> menu_visible disabled_page" "menu disabled_page = None"
    by (simp_all add: menu_visible_def disabled_page_def sample_page_def)
  from disabled_mode_is_inert [OF h k, of sample_gesture] h k v
  show ?thesis by simp
qed

end
